theory Spec2Isabelle
  imports Main "HOL-Library.Char_ord" "HOL-Library.List_Lexorder"
begin

section \<open>Face stylizer dataset loader\<close>

text \<open>
  A shallow embedding of \<^verbatim>\<open>mediapipe/model_maker/python/vision/face_stylizer/dataset.py\<close>:
  the helper \<^verbatim>\<open>_preprocess_face_dataset\<close> and the class method
  \<^verbatim>\<open>Dataset.from_folder\<close>.

  Python strings are modelled as \<^typ>\<open>string\<close>, ordered lexicographically by character
  code as Python orders \<^verbatim>\<open>str\<close> values. Python integers that index a list are
  modelled as \<^typ>\<open>nat\<close>.
\<close>

subsection \<open>String and path helpers of the Python standard library\<close>

text \<open>\<^verbatim>\<open>s.endswith(suf)\<close> for a single suffix.\<close>

definition endswith :: "string \<Rightarrow> string \<Rightarrow> bool" where
  "endswith s suf = (length suf \<le> length s \<and> drop (length s - length suf) s = suf)"

text \<open>\<^verbatim>\<open>s.endswith((suf1, suf2, ...))\<close>: true when some suffix of the tuple matches.\<close>

definition endswith_any :: "string \<Rightarrow> string list \<Rightarrow> bool" where
  "endswith_any s sufs = list_ex (endswith s) sufs"

text \<open>
  \<^verbatim>\<open>posixpath.basename(p)\<close>: \<^verbatim>\<open>i = p.rfind('/') + 1; return p[i:]\<close>,
  the part of \<open>p\<close> after its last slash (all of \<open>p\<close> when it has none).
\<close>

definition basename :: "string \<Rightarrow> string" where
  "basename p = rev (takeWhile (\<lambda>c. c \<noteq> CHR ''/'') (rev p))"

text \<open>
  \<^verbatim>\<open>posixpath.dirname(p)\<close>:
  \<^verbatim>\<open>i = p.rfind('/') + 1; head = p[:i]\<close>, then
  \<^verbatim>\<open>if head and head != '/' * len(head): head = head.rstrip('/')\<close>.
\<close>

definition dirname :: "string \<Rightarrow> string" where
  "dirname p =
     (let head = rev (dropWhile (\<lambda>c. c \<noteq> CHR ''/'') (rev p))
      in if head \<noteq> [] \<and> head \<noteq> replicate (length head) CHR ''/''
         then rev (dropWhile (\<lambda>c. c = CHR ''/'') (rev head))
         else head)"

text \<open>
  \<^verbatim>\<open>posixpath.join(a, b)\<close> for two components: \<open>b\<close> alone when it is absolute,
  the concatenation when \<open>a\<close> is empty or ends with a slash, and \<open>a + '/' + b\<close>
  otherwise.
\<close>

definition join :: "string \<Rightarrow> string \<Rightarrow> string" where
  "join a b =
     (if take 1 b = ''/'' then b
      else if a = [] \<or> endswith a ''/'' then a @ b
      else a @ ''/'' @ b)"

text \<open>
  \<^verbatim>\<open>dict(pairs)\<close>: the pairs are stored one after the other, a later pair replacing
  an earlier one with the same key.
\<close>

definition dict :: "('k \<times> 'v) list \<Rightarrow> ('k \<rightharpoonup> 'v)" where
  "dict kvs = fold (\<lambda>(k, v) m. m(k \<mapsto> v)) kvs Map.empty"

subsection \<open>The environment: file system and libraries\<close>

text \<open>
  The calls that leave the module are parameters of the model, one field for each:
  \<^item> \<open>abspath\<close>: \<^verbatim>\<open>os.path.abspath\<close>;
  \<^item> \<open>glob\<close>: \<^verbatim>\<open>tf.io.gfile.glob\<close>, from a pattern to the list of matching paths;
  \<^item> \<open>listdir\<close>: \<^verbatim>\<open>os.listdir\<close>, the entry names of a directory in the order the
    operating system reports them;
  \<^item> \<open>isdir\<close>: \<^verbatim>\<open>os.path.isdir\<close>;
  \<^item> \<open>align_to_tensor\<close>: the library calls of the loop body of
    \<^verbatim>\<open>_preprocess_face_dataset\<close> for one path. \<^verbatim>\<open>aligner.align(Image.create_from_file(path))\<close>
    returns an aligned image or, when it finds no face, \<^verbatim>\<open>None\<close>. The outcome is
    \<open>Some t\<close> for an aligned image, \<open>t\<close> being its tensor
    \<^verbatim>\<open>tf.convert_to_tensor(aligned_image.numpy_view())\<close>, and \<open>None\<close> for \<^verbatim>\<open>None\<close>.

  Each of them is taken to return; an exception raised inside a library is outside the
  model. The exceptions raised by the module's own statements are the values of \<open>error\<close>:
  the two \<^verbatim>\<open>raise ValueError\<close> statements, the attribute access
  \<^verbatim>\<open>aligned_image.numpy_view\<close> on \<^verbatim>\<open>None\<close>, which the source does not guard, and the
  subscript \<^verbatim>\<open>index_by_label[...]\<close> with a missing key.
\<close>

record 'tensor env =
  abspath :: "string \<Rightarrow> string"
  glob :: "string \<Rightarrow> string list"
  listdir :: "string \<Rightarrow> string list"
  isdir :: "string \<Rightarrow> bool"
  align_to_tensor :: "string \<Rightarrow> 'tensor option"

datatype error = ValueError string | AttributeError string | KeyError string

text \<open>
  The object \<^verbatim>\<open>Dataset(dataset=..., size=..., label_names=...)\<close>. The
  \<^verbatim>\<open>tf.data.Dataset\<close> of pairs is the list of its elements; the field \<^verbatim>\<open>size\<close> is
  named \<open>size_ds\<close>.
\<close>

record 'tensor Dataset =
  dataset :: "('tensor \<times> nat) list"
  size_ds :: nat
  label_names :: "string list"

subsection \<open>\<^verbatim>\<open>_preprocess_face_dataset\<close>\<close>

text \<open>
  The \<^verbatim>\<open>for path in all_image_paths\<close> loop. The accumulator \<open>preprocessed_images\<close> is
  the list the source appends to; \<open>calls\<close> records, in order, the paths that were handed
  to the aligner (each is also logged by the source with \<^verbatim>\<open>'Preprocess image %s'\<close>).
  When the aligner returns \<^verbatim>\<open>None\<close> for a path, \<^verbatim>\<open>aligned_image.numpy_view()\<close> raises
  \<^verbatim>\<open>AttributeError\<close>: the loop stops there and the later paths are never read. The
  message of the exception is written without its quotation marks.
\<close>

fun preprocess_loop ::
  "'tensor env \<Rightarrow> string list \<Rightarrow> string list \<Rightarrow> 'tensor list \<Rightarrow>
     string list \<times> (error + 'tensor list)"
where
  "preprocess_loop e [] calls preprocessed_images = (calls, Inr preprocessed_images)"
| "preprocess_loop e (path # rest) calls preprocessed_images =
     (case align_to_tensor e path of
        None \<Rightarrow>
          (calls @ [path],
           Inl (AttributeError ''NoneType object has no attribute numpy_view''))
      | Some aligned_image_tensor \<Rightarrow>
          preprocess_loop e rest (calls @ [path])
            (preprocessed_images @ [aligned_image_tensor]))"

definition preprocess_face_dataset ::
  "'tensor env \<Rightarrow> string list \<Rightarrow> string list \<times> (error + 'tensor list)"
where
  "preprocess_face_dataset e all_image_paths = preprocess_loop e all_image_paths [] []"

subsection \<open>\<^verbatim>\<open>Dataset.from_folder\<close>\<close>

text \<open>The supported image suffixes of the \<^verbatim>\<open>any(...)\<close> test.\<close>

definition image_suffixes :: "string list" where
  "image_suffixes = [''.jpg'', ''.jpeg'', ''.png'']"

text \<open>
  \<^verbatim>\<open>sorted(name for name in os.listdir(data_root) if os.path.isdir(os.path.join(data_root, name)))\<close>
\<close>

definition label_names_of :: "'tensor env \<Rightarrow> string \<Rightarrow> string list" where
  "label_names_of e data_root =
     sort (filter (\<lambda>name. isdir e (join data_root name)) (listdir e data_root))"

text \<open>\<^verbatim>\<open>dict((name, index) for index, name in enumerate(label_names))\<close>\<close>

definition index_by_label_of :: "string list \<Rightarrow> (string \<rightharpoonup> nat)" where
  "index_by_label_of names = dict (map (\<lambda>(index, name). (name, index)) (enumerate 0 names))"

text \<open>
  \<^verbatim>\<open>[index_by_label[os.path.basename(os.path.dirname(path))] for path in all_image_paths]\<close>:
  a subscript with a missing key raises \<^verbatim>\<open>KeyError\<close> at the first such path.
\<close>

fun all_image_labels_of :: "(string \<rightharpoonup> nat) \<Rightarrow> string list \<Rightarrow> error + nat list" where
  "all_image_labels_of index_by_label [] = Inr []"
| "all_image_labels_of index_by_label (path # rest) =
     (case index_by_label (basename (dirname path)) of
        None \<Rightarrow> Inl (KeyError (basename (dirname path)))
      | Some index \<Rightarrow>
          (case all_image_labels_of index_by_label rest of
             Inl err \<Rightarrow> Inl err
           | Inr labels \<Rightarrow> Inr (index # labels)))"

text \<open>
  The method itself. Its result is the pair of the paths handed to the aligner, in call
  order, and the outcome: the exception raised or the \<open>Dataset\<close> returned.
\<close>

definition from_folder ::
  "'tensor env \<Rightarrow> string \<Rightarrow> string list \<times> (error + 'tensor Dataset)"
where
  "from_folder e dir_name =
     (let data_root = abspath e dir_name;
          all_image_paths = glob e (data_root @ ''/*/*'');
          all_image_size = length all_image_paths
      in if all_image_size = 0 then
           ([], Inl (ValueError ''Invalid input data directory''))
         else if \<not> list_ex (\<lambda>fname. endswith_any fname image_suffixes) all_image_paths then
           ([], Inl (ValueError ''No images found under given directory''))
         else
           (case preprocess_face_dataset e all_image_paths of
              (calls, Inl err) \<Rightarrow> (calls, Inl err)
            | (calls, Inr image_data) \<Rightarrow>
                (let names = label_names_of e data_root;
                     index_by_label = index_by_label_of names
                 in case all_image_labels_of index_by_label all_image_paths of
                      Inl err \<Rightarrow> (calls, Inl err)
                    | Inr all_image_labels \<Rightarrow>
                        (calls,
                         Inr \<lparr>dataset = zip image_data all_image_labels,
                              size_ds = all_image_size,
                              label_names = names\<rparr>))))"

text \<open>
  Two statements of the source have no counterpart above because nothing depends on them:
  \<^verbatim>\<open>tf.cast(all_image_labels, tf.int64)\<close> changes the element type of the labels and not
  their values (an index of \<open>label_names\<close> is far below \<open>2^63\<close>), and the final
  \<^verbatim>\<open>logging.info\<close> only reports \<open>all_image_size\<close>, \<open>all_label_size\<close> and the names.
\<close>

subsection \<open>Observations of the file system\<close>

text \<open>
  The glob runs first; the directory listing runs after every image has been
  preprocessed. \<open>glob_still_present\<close> says that the file system did not change in between,
  as far as the run can tell: when \<open>listdir\<close> and \<open>isdir\<close> are asked, every path that the
  glob returned is still where the glob saw it, that is, the directory that holds it is
  an entry of its own parent directory and is a directory. The predicate relates each
  globbed path to the directories named in that path; it says nothing about how those
  directories relate to \<open>data_root\<close>.
\<close>

definition glob_still_present :: "'tensor env \<Rightarrow> string \<Rightarrow> bool" where
  "glob_still_present e data_root =
     list_all
       (\<lambda>path. basename (dirname path) \<in> set (listdir e (dirname (dirname path))) \<and>
          isdir e (join (dirname (dirname path)) (basename (dirname path))))
       (glob e (data_root @ ''/*/*''))"

text \<open>
  \<open>glob_below_root\<close>: every globbed path lies exactly two levels below \<open>data_root\<close>, that
  is, \<^verbatim>\<open>os.path.dirname(os.path.dirname(path)) == data_root\<close>. The glob pattern is
  \<^verbatim>\<open>data_root + '/*/*'\<close>, and a \<open>data_root\<close> that contains pattern characters of the glob
  (such as \<^verbatim>\<open>[\<close>) matches paths below other directories.
\<close>

definition glob_below_root :: "'tensor env \<Rightarrow> string \<Rightarrow> bool" where
  "glob_below_root e data_root =
     list_all (\<lambda>path. dirname (dirname path) = data_root) (glob e (data_root @ ''/*/*''))"

text \<open>
  Concrete environments. In \<open>example_env\<close> the directory \<^verbatim>\<open>/w/faces\<close> holds the
  subdirectories \<^verbatim>\<open>sketch\<close> (two images) and \<^verbatim>\<open>cartoon\<close> (a text file) and the plain
  file \<^verbatim>\<open>README\<close>; the aligner finds a face in every file, and the tensor of a path is
  the path with a tag in front.
\<close>

definition example_env :: "string env" where
  "example_env =
     \<lparr>abspath = (\<lambda>d. ''/w/'' @ d),
      glob = (\<lambda>pattern. if pattern = ''/w/faces/*/*''
         then [''/w/faces/sketch/s1.jpg'', ''/w/faces/cartoon/notes.txt'', ''/w/faces/sketch/s2.png'']
         else []),
      listdir = (\<lambda>d. if d = ''/w/faces'' then [''sketch'', ''cartoon'', ''README''] else []),
      isdir = (\<lambda>p. p = ''/w/faces/sketch'' \<or> p = ''/w/faces/cartoon''),
      align_to_tensor = (\<lambda>p. Some (''aligned '' @ p))\<rparr>"

text \<open>
  \<open>stale_env\<close>: the glob still saw \<^verbatim>\<open>sketch\<close>, the later listing no longer does (the
  directory was removed or renamed while the images were preprocessed).
\<close>

definition stale_env :: "string env" where
  "stale_env = example_env\<lparr>listdir := (\<lambda>d. if d = ''/w/faces'' then [''cartoon'', ''README''] else [])\<rparr>"

text \<open>\<open>reordered_env\<close>: the same directory, listed by the operating system in another order.\<close>

definition reordered_env :: "string env" where
  "reordered_env = example_env\<lparr>listdir := (\<lambda>d. if d = ''/w/faces'' then [''README'', ''cartoon'', ''sketch''] else [])\<rparr>"

text \<open>\<open>no_image_env\<close>: the only file under \<^verbatim>\<open>/w/faces\<close> is a text file; other roots are empty.\<close>

definition no_image_env :: "string env" where
  "no_image_env = example_env\<lparr>glob := (\<lambda>pattern. if pattern = ''/w/faces/*/*''
         then [''/w/faces/cartoon/notes.txt''] else [])\<rparr>"

text \<open>
  \<open>faceless_env\<close>: the same directory, but the aligner finds no face in the second globbed
  path and returns \<^verbatim>\<open>None\<close> for it.
\<close>

definition faceless_env :: "string env" where
  "faceless_env = example_env\<lparr>align_to_tensor :=
     (\<lambda>p. if p = ''/w/faces/cartoon/notes.txt'' then None else Some (''aligned '' @ p))\<rparr>"

text \<open>
  \<open>bracket_env\<close>: one fixed tree with the directories \<^verbatim>\<open>/w/d[1]/cartoon\<close> and
  \<^verbatim>\<open>/w/d1/sketch\<close>, the latter holding \<^verbatim>\<open>s1.jpg\<close>. For the directory name
  \<^verbatim>\<open>d[1]\<close> the glob pattern is \<^verbatim>\<open>/w/d[1]/*/*\<close>, in which \<^verbatim>\<open>[1]\<close> is a character class:
  it matches the paths below \<^verbatim>\<open>/w/d1\<close> and none below \<^verbatim>\<open>/w/d[1]\<close>, while the listing
  reads the directory \<^verbatim>\<open>/w/d[1]\<close> itself.
\<close>

definition bracket_env :: "string env" where
  "bracket_env =
     \<lparr>abspath = (\<lambda>d. ''/w/'' @ d),
      glob = (\<lambda>pattern. if pattern = ''/w/d[1]/*/*'' then [''/w/d1/sketch/s1.jpg''] else []),
      listdir = (\<lambda>d. if d = ''/w/d[1]'' then [''cartoon'']
         else if d = ''/w/d1'' then [''sketch''] else []),
      isdir = (\<lambda>p. p = ''/w/d[1]/cartoon'' \<or> p = ''/w/d1/sketch''),
      align_to_tensor = (\<lambda>p. Some (''aligned '' @ p))\<rparr>"

text \<open>
  Shorthands for the statements below: the paths \<open>from_folder\<close> obtains from the glob, and
  the \<^verbatim>\<open>any(...)\<close> test on them.
\<close>

abbreviation globbed :: "'tensor env \<Rightarrow> string \<Rightarrow> string list" where
  "globbed e d \<equiv> glob e (abspath e d @ ''/*/*'')"

abbreviation has_image :: "string list \<Rightarrow> bool" where
  "has_image paths \<equiv> list_ex (\<lambda>fname. endswith_any fname image_suffixes) paths"

section \<open>Properties\<close>

subsection \<open>The preprocessing loop\<close>

lemma preprocess_loop_all:
  "\<forall>path \<in> set ps. align_to_tensor e path \<noteq> None \<Longrightarrow>
     preprocess_loop e ps calls imgs =
       (calls @ ps, Inr (imgs @ map (\<lambda>path. the (align_to_tensor e path)) ps))"
  by (induction ps arbitrary: calls imgs) auto

lemma preprocess_loop_calls:
  "fst (preprocess_loop e ps calls imgs) =
     calls @ takeWhile (\<lambda>path. align_to_tensor e path \<noteq> None) ps
       @ take 1 (dropWhile (\<lambda>path. align_to_tensor e path \<noteq> None) ps)"
  by (induction ps arbitrary: calls imgs) (auto split: option.splits)

lemma preprocess_loop_Inr:
  "snd (preprocess_loop e ps calls imgs) = Inr ts \<Longrightarrow>
     \<exists>new. ts = imgs @ new \<and> map (align_to_tensor e) ps = map Some new"
proof (induction ps arbitrary: calls imgs)
  case Nil
  then show ?case by simp
next
  case (Cons p ps)
  from Cons.prems obtain t where t: "align_to_tensor e p = Some t"
    by (cases "align_to_tensor e p") auto
  with Cons.prems have "snd (preprocess_loop e ps (calls @ [p]) (imgs @ [t])) = Inr ts" by simp
  from Cons.IH [OF this] obtain new where
    "ts = (imgs @ [t]) @ new" "map (align_to_tensor e) ps = map Some new" by blast
  with t have "ts = imgs @ (t # new) \<and> map (align_to_tensor e) (p # ps) = map Some (t # new)"
    by simp
  then show ?case by blast
qed

lemma preprocess_loop_Inl:
  "snd (preprocess_loop e ps calls imgs) = Inl err \<Longrightarrow>
     (\<exists>msg. err = AttributeError msg) \<and> (\<exists>path \<in> set ps. align_to_tensor e path = None)"
  by (induction ps arbitrary: calls imgs) (auto split: option.splits)

lemma preprocess_loop_cong:
  "\<forall>path \<in> set ps. align_to_tensor e1 path = align_to_tensor e2 path \<Longrightarrow>
     preprocess_loop e1 ps calls imgs = preprocess_loop e2 ps calls imgs"
  by (induction ps arbitrary: calls imgs) (auto split: option.splits)

lemma preprocess_face_dataset_all:
  "\<forall>path \<in> set ps. align_to_tensor e path \<noteq> None \<Longrightarrow>
     preprocess_face_dataset e ps = (ps, Inr (map (\<lambda>path. the (align_to_tensor e path)) ps))"
  by (simp add: preprocess_face_dataset_def preprocess_loop_all)

lemma preprocess_face_dataset_Inr:
  assumes "snd (preprocess_face_dataset e ps) = Inr ts"
  shows "map (align_to_tensor e) ps = map Some ts \<and> fst (preprocess_face_dataset e ps) = ps"
proof -
  from assms preprocess_loop_Inr [of e ps "[]" "[]" ts]
  have m: "map (align_to_tensor e) ps = map Some ts"
    by (simp add: preprocess_face_dataset_def)
  have "align_to_tensor e path \<noteq> None" if "path \<in> set ps" for path
  proof -
    from that have "align_to_tensor e path \<in> set (map (align_to_tensor e) ps)" by simp
    with m have "align_to_tensor e path \<in> set (map Some ts)" by simp
    then show ?thesis by auto
  qed
  then have "fst (preprocess_face_dataset e ps) = ps"
    by (simp add: preprocess_face_dataset_all)
  with m show ?thesis by simp
qed

subsection \<open>The label dictionary\<close>

lemma dict_eq_map_of_aux:
  "fold (\<lambda>(k, v) m. m(k \<mapsto> v)) kvs m = m ++ map_of (rev kvs)"
  by (induction kvs arbitrary: m) (auto simp: map_add_upd_left fun_eq_iff map_add_def split: option.splits)

lemma dict_eq_map_of: "dict kvs = map_of (rev kvs)"
  by (simp add: dict_def dict_eq_map_of_aux)

lemma index_by_label_SomeD:
  assumes "index_by_label_of names n = Some i"
  shows "i < length names \<and> names ! i = n"
proof -
  from assms have "(n, i) \<in> set (map (\<lambda>(index, name). (name, index)) (enumerate 0 names))"
    unfolding index_by_label_of_def dict_eq_map_of
    by (metis map_of_SomeD set_rev)
  then have "(i, n) \<in> set (enumerate 0 names)" by auto
  then show ?thesis by (simp add: in_set_enumerate_eq)
qed

lemma dom_index_by_label: "dom (index_by_label_of names) = set names"
proof -
  have "dom (index_by_label_of names) =
    fst ` set (map (\<lambda>(index, name). (name, index)) (enumerate 0 names))"
    unfolding index_by_label_of_def dict_eq_map_of by (simp add: dom_map_of_conv_image_fst)
  also have "\<dots> = snd ` set (enumerate 0 names)"
    by (auto simp: image_iff split: prod.splits) force+
  also have "\<dots> = set names"
    by (metis map_snd_enumerate set_map)
  finally show ?thesis .
qed

lemma index_by_label_nth:
  assumes "distinct names" "i < length names"
  shows "index_by_label_of names (names ! i) = Some i"
proof -
  have "names ! i \<in> dom (index_by_label_of names)"
    using assms(2) by (simp add: dom_index_by_label)
  then obtain j where j: "index_by_label_of names (names ! i) = Some j" by blast
  from index_by_label_SomeD [OF j] have "j < length names" "names ! j = names ! i" by simp_all
  with assms have "j = i" by (simp add: nth_eq_iff_index_eq)
  with j show ?thesis by simp
qed

subsection \<open>The label lookup\<close>

lemma all_image_labels_Inr_iff:
  "all_image_labels_of m ps = Inr ls \<longleftrightarrow>
     map (\<lambda>p. m (basename (dirname p))) ps = map Some ls"
proof (induction ps arbitrary: ls)
  case Nil
  then show ?case by auto
next
  case (Cons p ps)
  show ?case
  proof (cases "m (basename (dirname p))")
    case None
    then show ?thesis by auto
  next
    case (Some i)
    show ?thesis
    proof (cases "all_image_labels_of m ps")
      case (Inl err)
      with Cons.IH have "\<And>zs. map (\<lambda>p. m (basename (dirname p))) ps \<noteq> map Some zs"
        by simp
      with Some Inl show ?thesis by (cases ls) auto
    next
      case (Inr zs)
      with Cons.IH [of zs] have "map (\<lambda>p. m (basename (dirname p))) ps = map Some zs"
        by simp
      with Some Inr show ?thesis by (cases ls) auto
    qed
  qed
qed

lemma all_image_labels_Inl:
  "all_image_labels_of m ps = Inl err \<Longrightarrow>
     \<exists>p \<in> set ps. err = KeyError (basename (dirname p)) \<and> m (basename (dirname p)) = None"
  by (induction ps) (auto split: option.splits sum.splits)

lemma all_image_labels_total:
  "\<forall>p \<in> set ps. basename (dirname p) \<in> dom m \<Longrightarrow> \<exists>ls. all_image_labels_of m ps = Inr ls"
  by (induction ps) (auto split: option.splits sum.splits)

subsection \<open>The three outcomes of \<open>from_folder\<close>\<close>

lemma from_folder_empty:
  "glob e (abspath e d @ ''/*/*'') = [] \<Longrightarrow>
     from_folder e d = ([], Inl (ValueError ''Invalid input data directory''))"
  by (simp add: from_folder_def)

lemma from_folder_no_image:
  "glob e (abspath e d @ ''/*/*'') \<noteq> [] \<Longrightarrow>
   \<not> list_ex (\<lambda>fname. endswith_any fname image_suffixes) (glob e (abspath e d @ ''/*/*'')) \<Longrightarrow>
     from_folder e d = ([], Inl (ValueError ''No images found under given directory''))"
  by (simp add: from_folder_def Let_def)

lemma from_folder_checked:
  assumes "list_ex (\<lambda>fname. endswith_any fname image_suffixes) (glob e (abspath e d @ ''/*/*''))"
  shows "from_folder e d =
     (case preprocess_face_dataset e (glob e (abspath e d @ ''/*/*'')) of
        (calls, Inl err) \<Rightarrow> (calls, Inl err)
      | (calls, Inr image_data) \<Rightarrow>
          (calls,
           case all_image_labels_of (index_by_label_of (label_names_of e (abspath e d)))
                  (glob e (abspath e d @ ''/*/*'')) of
             Inl err \<Rightarrow> Inl err
           | Inr all_image_labels \<Rightarrow>
               Inr \<lparr>dataset = zip image_data all_image_labels,
                    size_ds = length (glob e (abspath e d @ ''/*/*'')),
                    label_names = label_names_of e (abspath e d)\<rparr>))"
proof -
  from assms have "glob e (abspath e d @ ''/*/*'') \<noteq> []" by auto
  with assms show ?thesis
    by (simp add: from_folder_def Let_def split: sum.splits prod.splits)
qed

lemma from_folder_calls:
  assumes "list_ex (\<lambda>fname. endswith_any fname image_suffixes) (glob e (abspath e d @ ''/*/*''))"
  shows "fst (from_folder e d) = fst (preprocess_face_dataset e (glob e (abspath e d @ ''/*/*'')))"
  unfolding from_folder_checked [OF assms] by (simp split: sum.splits prod.splits)

subsection \<open>The label names\<close>

lemma label_names_sorted: "sorted (label_names_of e r)"
  by (simp add: label_names_of_def)

lemma label_names_set:
  "set (label_names_of e r) = {n \<in> set (listdir e r). isdir e (join r n)}"
  by (auto simp: label_names_of_def)

lemma label_names_distinct: "distinct (listdir e r) \<Longrightarrow> distinct (label_names_of e r)"
  by (simp add: label_names_of_def)

lemma labels_in_range:
  assumes "all_image_labels_of (index_by_label_of names) ps = Inr ls"
  shows "length ls = length ps \<and>
    (\<forall>i<length ps. ls ! i < length names \<and> names ! (ls ! i) = basename (dirname (ps ! i)))"
proof -
  from assms have eq: "map (\<lambda>p. index_by_label_of names (basename (dirname p))) ps = map Some ls"
    by (simp add: all_image_labels_Inr_iff)
  then have len: "length ls = length ps" by (metis length_map)
  have "ls ! i < length names \<and> names ! (ls ! i) = basename (dirname (ps ! i))"
    if "i < length ps" for i
  proof -
    from eq have "map (\<lambda>p. index_by_label_of names (basename (dirname p))) ps ! i = map Some ls ! i"
      by simp
    with that len have "index_by_label_of names (basename (dirname (ps ! i))) = Some (ls ! i)"
      by simp
    then show ?thesis by (rule index_by_label_SomeD)
  qed
  with len show ?thesis by blast
qed

lemma map_Some_nth:
  assumes "map f ps = map Some ts"
  shows "length ts = length ps \<and> (\<forall>i<length ps. f (ps ! i) = Some (ts ! i))"
proof -
  from assms have len: "length ts = length ps" by (metis length_map)
  have "f (ps ! i) = Some (ts ! i)" if "i < length ps" for i
  proof -
    from assms have "map f ps ! i = map Some ts ! i" by simp
    with that len show ?thesis by simp
  qed
  with len show ?thesis by blast
qed

subsection \<open>Returned datasets\<close>

lemma from_folder_Inr_D:
  assumes "snd (from_folder e d) = Inr ds"
  shows "list_ex (\<lambda>fname. endswith_any fname image_suffixes) (glob e (abspath e d @ ''/*/*'')) \<and>
    fst (from_folder e d) = glob e (abspath e d @ ''/*/*'') \<and>
    (\<exists>tensors labels.
       map (align_to_tensor e) (glob e (abspath e d @ ''/*/*'')) = map Some tensors \<and>
       all_image_labels_of (index_by_label_of (label_names_of e (abspath e d)))
         (glob e (abspath e d @ ''/*/*'')) = Inr labels \<and>
       ds = \<lparr>dataset = zip tensors labels,
              size_ds = length (glob e (abspath e d @ ''/*/*'')),
              label_names = label_names_of e (abspath e d)\<rparr>)"
proof (cases "list_ex (\<lambda>fname. endswith_any fname image_suffixes) (glob e (abspath e d @ ''/*/*''))")
  case True
  let ?ps = "glob e (abspath e d @ ''/*/*'')"
  obtain calls r where p: "preprocess_face_dataset e ?ps = (calls, r)" by (cases "preprocess_face_dataset e ?ps")
  with assms obtain tensors where r: "r = Inr tensors"
    unfolding from_folder_checked [OF True] by (cases r) auto
  from p r preprocess_face_dataset_Inr [of e ?ps tensors]
  have m: "map (align_to_tensor e) ?ps = map Some tensors" and c: "calls = ?ps" by simp_all
  from assms p r obtain labels where
    l: "all_image_labels_of (index_by_label_of (label_names_of e (abspath e d))) ?ps = Inr labels"
    and ds: "ds = \<lparr>dataset = zip tensors labels, size_ds = length ?ps,
              label_names = label_names_of e (abspath e d)\<rparr>"
    unfolding from_folder_checked [OF True] by (auto split: sum.splits)
  have "fst (from_folder e d) = ?ps"
    unfolding from_folder_checked [OF True] using p r c by simp
  with True m l ds show ?thesis by blast
next
  case False
  show ?thesis
  proof (cases "glob e (abspath e d @ ''/*/*'') = []")
    case True
    with assms show ?thesis by (simp add: from_folder_empty)
  next
    case nonempty: False
    with False assms show ?thesis by (simp add: from_folder_no_image)
  qed
qed

lemma from_folder_Inl_D:
  assumes "list_ex (\<lambda>fname. endswith_any fname image_suffixes) (glob e (abspath e d @ ''/*/*''))"
    and "snd (from_folder e d) = Inl err"
  shows "(\<exists>msg. err = AttributeError msg) \<or>
    all_image_labels_of (index_by_label_of (label_names_of e (abspath e d)))
       (glob e (abspath e d @ ''/*/*'')) = Inl err"
proof -
  let ?ps = "glob e (abspath e d @ ''/*/*'')"
  obtain calls r where p: "preprocess_face_dataset e ?ps = (calls, r)" by (cases "preprocess_face_dataset e ?ps")
  show ?thesis
  proof (cases r)
    case (Inl err')
    with assms(2) p have "err' = err" unfolding from_folder_checked [OF assms(1)] by simp
    with p Inl preprocess_loop_Inl [of e ?ps "[]" "[]" err] show ?thesis
      by (simp add: preprocess_face_dataset_def)
  next
    case (Inr tensors)
    with assms(2) p show ?thesis
      unfolding from_folder_checked [OF assms(1)] by (auto split: sum.splits)
  qed
qed

subsection \<open>Globbed paths below the data root\<close>

lemma dirname_child:
  assumes "c \<noteq> []" "CHR ''/'' \<notin> set c" "CHR ''/'' \<notin> set f"
  shows "dirname (r @ ''/'' @ c @ ''/'' @ f) = r @ ''/'' @ c"
proof -
  let ?ne = "\<lambda>x. x \<noteq> CHR ''/''"
  have rv: "rev (r @ ''/'' @ c @ ''/'' @ f) = rev f @ CHR ''/'' # (rev c @ CHR ''/'' # rev r)"
    by simp
  have head: "rev (dropWhile ?ne (rev (r @ ''/'' @ c @ ''/'' @ f))) = r @ ''/'' @ c @ ''/''"
    unfolding rv using assms(3) by (auto simp: dropWhile_append3)
  have nonslash: "r @ ''/'' @ c @ ''/'' \<noteq> replicate (length (r @ ''/'' @ c @ ''/'')) CHR ''/''"
  proof
    assume "r @ ''/'' @ c @ ''/'' = replicate (length (r @ ''/'' @ c @ ''/'')) CHR ''/''"
    then have "set (r @ ''/'' @ c @ ''/'') \<subseteq> {CHR ''/''}"
      by (metis set_replicate_conv_if subset_refl empty_subsetI)
    with assms(1,2) show False by (cases c) auto
  qed
  obtain x xs where c: "rev c = x # xs" using assms(1) by (cases "rev c") auto
  with assms(2) have x: "x \<noteq> CHR ''/''" by (metis list.set_intros(1) set_rev)
  have strip: "rev (dropWhile (\<lambda>x. x = CHR ''/'') (rev (r @ ''/'' @ c @ ''/''))) = r @ ''/'' @ c"
    using c x by simp
  show ?thesis
    unfolding dirname_def Let_def head using nonslash strip by simp
qed

lemma dirname_parent:
  assumes "r \<noteq> []" "last r \<noteq> CHR ''/''" "CHR ''/'' \<notin> set c"
  shows "dirname (r @ ''/'' @ c) = r"
proof -
  let ?ne = "\<lambda>x. x \<noteq> CHR ''/''"
  have rv: "rev (r @ ''/'' @ c) = rev c @ CHR ''/'' # rev r" by simp
  have head: "rev (dropWhile ?ne (rev (r @ ''/'' @ c))) = r @ ''/''"
    unfolding rv using assms(3) by (auto simp: dropWhile_append3)
  have nonslash: "r @ ''/'' \<noteq> replicate (length (r @ ''/'')) CHR ''/''"
  proof
    assume "r @ ''/'' = replicate (length (r @ ''/'')) CHR ''/''"
    then have "set (r @ ''/'') \<subseteq> {CHR ''/''}"
      by (metis set_replicate_conv_if subset_refl empty_subsetI)
    moreover have "last r \<in> set r" using assms(1) by simp
    ultimately show False using assms(2) by auto
  qed
  obtain x xs where r: "rev r = x # xs" using assms(1) by (cases "rev r") auto
  then have "x = hd (rev r)" by simp
  with assms(2) have x: "x \<noteq> CHR ''/''" by (simp add: hd_rev)
  have strip: "rev (dropWhile (\<lambda>x. x = CHR ''/'') (rev (r @ ''/''))) = r"
    using r x by simp
  show ?thesis
    unfolding dirname_def Let_def head using nonslash strip by simp
qed

lemma dirname_dirname_child:
  assumes "r \<noteq> []" "last r \<noteq> CHR ''/''" "c \<noteq> []" "CHR ''/'' \<notin> set c" "CHR ''/'' \<notin> set f"
  shows "dirname (dirname (r @ ''/'' @ c @ ''/'' @ f)) = r"
  by (simp only: dirname_child [OF assms(3,4,5)] dirname_parent [OF assms(1,2,4)])

lemma basename_dirname_child:
  assumes "c \<noteq> []" "CHR ''/'' \<notin> set c" "CHR ''/'' \<notin> set f"
  shows "basename (dirname (r @ ''/'' @ c @ ''/'' @ f)) = c"
proof -
  have "takeWhile (\<lambda>x. x \<noteq> CHR ''/'') (rev (r @ ''/'' @ c)) = rev c"
    using assms(2) by (auto simp: takeWhile_append2 takeWhile_tail)
  then show ?thesis unfolding basename_def dirname_child [OF assms] by simp
qed

lemma glob_below_root_literal:
  assumes "r \<noteq> []" "last r \<noteq> CHR ''/''"
    and "\<forall>path \<in> set (glob e (r @ ''/*/*'')).
           \<exists>c f. path = r @ ''/'' @ c @ ''/'' @ f \<and> c \<noteq> [] \<and>
             CHR ''/'' \<notin> set c \<and> CHR ''/'' \<notin> set f"
  shows "glob_below_root e r"
  unfolding glob_below_root_def list_all_iff
proof
  fix path assume "path \<in> set (glob e (r @ ''/*/*''))"
  with assms(3) obtain c f where p: "path = r @ ''/'' @ c @ ''/'' @ f" and c: "c \<noteq> []"
    "CHR ''/'' \<notin> set c" and f: "CHR ''/'' \<notin> set f" by blast
  show "dirname (dirname path) = r"
    unfolding p by (rule dirname_dirname_child [OF assms(1,2) c f])
qed

lemma still_present_parent:
  assumes "glob_still_present e r" "glob_below_root e r" "path \<in> set (glob e (r @ ''/*/*''))"
  shows "basename (dirname path) \<in> set (label_names_of e r)"
  using assms unfolding glob_still_present_def glob_below_root_def list_all_iff
  by (auto simp: label_names_set)

section \<open>The claims\<close>

text \<open>
  Claim C1, as amended. When the glob yields at least one path, at least one globbed path
  ends in \<^verbatim>\<open>.jpg\<close>, \<^verbatim>\<open>.jpeg\<close> or \<^verbatim>\<open>.png\<close>, the aligner returns an image for every
  globbed path, and the parent directory name of every globbed path is one of the
  subdirectory names the listing reports, \<open>from_folder\<close> returns a \<open>Dataset\<close> whose
  underlying dataset is the zip of the aligned tensors of the globbed paths with their
  labels: the \<open>i\<close>-th tensor is that of the \<open>i\<close>-th path, the \<open>i\<close>-th label is a position of
  \<open>label_names\<close> (the sorted listed subdirectory names) that holds the parent directory
  name of the \<open>i\<close>-th path, and \<open>size\<close> is the number of globbed paths.
\<close>

theorem from_folder_returns_zip:
  assumes "globbed e d \<noteq> []"
    and "has_image (globbed e d)"
    and "\<forall>path \<in> set (globbed e d). align_to_tensor e path \<noteq> None"
    and "\<forall>path \<in> set (globbed e d).
           basename (dirname path) \<in> set (label_names_of e (abspath e d))"
  shows "\<exists>tensors labels.
      snd (from_folder e d) =
        Inr \<lparr>dataset = zip tensors labels,
             size_ds = length (globbed e d),
             label_names = label_names_of e (abspath e d)\<rparr> \<and>
      length tensors = length (globbed e d) \<and>
      length labels = length (globbed e d) \<and>
      (\<forall>i<length (globbed e d).
         align_to_tensor e (globbed e d ! i) = Some (tensors ! i) \<and>
         labels ! i < length (label_names_of e (abspath e d)) \<and>
         label_names_of e (abspath e d) ! (labels ! i) = basename (dirname (globbed e d ! i))) \<and>
      sorted (label_names_of e (abspath e d)) \<and>
      set (label_names_of e (abspath e d)) =
        {name \<in> set (listdir e (abspath e d)). isdir e (join (abspath e d) name)}"
proof -
  let ?ps = "globbed e d"
  let ?names = "label_names_of e (abspath e d)"
  let ?tensors = "map (\<lambda>path. the (align_to_tensor e path)) ?ps"
  from assms(4) obtain labels where
    ls: "all_image_labels_of (index_by_label_of ?names) ?ps = Inr labels"
    using all_image_labels_total [of ?ps "index_by_label_of ?names"]
    by (auto simp: dom_index_by_label)
  have pre: "preprocess_face_dataset e ?ps = (?ps, Inr ?tensors)"
    using assms(3) by (rule preprocess_face_dataset_all)
  have res: "snd (from_folder e d) =
        Inr \<lparr>dataset = zip ?tensors labels, size_ds = length ?ps, label_names = ?names\<rparr>"
    by (simp add: from_folder_checked [OF assms(2)] pre ls)
  have al: "align_to_tensor e (?ps ! i) = Some (?tensors ! i)" if "i < length ?ps" for i
    using assms(3) that by auto
  from labels_in_range [OF ls] have
    len: "length labels = length ?ps" and
    rng: "\<forall>i<length ?ps. labels ! i < length ?names \<and>
            ?names ! (labels ! i) = basename (dirname (?ps ! i))"
    by simp_all
  have "length ?tensors = length ?ps" by simp
  with res len rng al label_names_sorted [of e "abspath e d"] label_names_set [of e "abspath e d"]
  show ?thesis by blast
qed

theorem from_folder_returns_zip_witness:
  "snd (from_folder example_env ''faces'') =
     Inr \<lparr>dataset =
            [(''aligned /w/faces/sketch/s1.jpg'', 1),
             (''aligned /w/faces/cartoon/notes.txt'', 0),
             (''aligned /w/faces/sketch/s2.png'', 1)],
          size_ds = 3, label_names = [''cartoon'', ''sketch'']\<rparr>"
proof -
  have h1: "globbed example_env ''faces'' \<noteq> []" by code_simp
  have h2: "has_image (globbed example_env ''faces'')" by code_simp
  have h3: "\<forall>path \<in> set (globbed example_env ''faces''). align_to_tensor example_env path \<noteq> None"
    by (simp add: example_env_def)
  have h4: "\<forall>path \<in> set (globbed example_env ''faces'').
      basename (dirname path) \<in> set (label_names_of example_env (abspath example_env ''faces''))"
    by code_simp
  have g: "globbed example_env ''faces'' =
    [''/w/faces/sketch/s1.jpg'', ''/w/faces/cartoon/notes.txt'', ''/w/faces/sketch/s2.png'']"
    by code_simp
  have n: "label_names_of example_env (abspath example_env ''faces'') = [''cartoon'', ''sketch'']"
    by code_simp
  have b: "basename (dirname ''/w/faces/sketch/s1.jpg'') = ''sketch''"
     "basename (dirname ''/w/faces/cartoon/notes.txt'') = ''cartoon''"
     "basename (dirname ''/w/faces/sketch/s2.png'') = ''sketch''"
    by code_simp+
  have a: "align_to_tensor example_env = (\<lambda>p. Some (''aligned '' @ p))"
    by (simp add: example_env_def)
  from from_folder_returns_zip [OF h1 h2 h3 h4] obtain tensors labels where
    r: "snd (from_folder example_env ''faces'') =
        Inr \<lparr>dataset = zip tensors labels,
             size_ds = length (globbed example_env ''faces''),
             label_names = label_names_of example_env (abspath example_env ''faces'')\<rparr>"
    and lt: "length tensors = length (globbed example_env ''faces'')"
    and l: "length labels = length (globbed example_env ''faces'')"
    and i: "\<forall>i<length (globbed example_env ''faces'').
         align_to_tensor example_env (globbed example_env ''faces'' ! i) = Some (tensors ! i) \<and>
         labels ! i < length (label_names_of example_env (abspath example_env ''faces'')) \<and>
         label_names_of example_env (abspath example_env ''faces'') ! (labels ! i)
           = basename (dirname (globbed example_env ''faces'' ! i))"
    by blast
  have l0: "labels ! 0 = 1 \<and> tensors ! 0 = ''aligned /w/faces/sketch/s1.jpg''"
    using i [rule_format, of 0] by (simp add: g n b a less_Suc_eq nth_Cons' split: if_splits)
  have l1: "labels ! 1 = 0 \<and> tensors ! 1 = ''aligned /w/faces/cartoon/notes.txt''"
    using i [rule_format, of 1] by (simp add: g n b a less_Suc_eq nth_Cons' split: if_splits)
  have l2: "labels ! 2 = 1 \<and> tensors ! 2 = ''aligned /w/faces/sketch/s2.png''"
    using i [rule_format, of 2] by (simp add: g n b a less_Suc_eq nth_Cons' split: if_splits)
  from l g obtain x y z where xyz: "labels = [x, y, z]"
    by (auto simp: length_Suc_conv numeral_3_eq_3)
  from lt g obtain u v w where uvw: "tensors = [u, v, w]"
    by (auto simp: length_Suc_conv numeral_3_eq_3)
  from xyz l0 l1 l2 have "labels = [1, 0, 1]" by simp
  moreover from uvw l0 l1 l2 have "tensors = [''aligned /w/faces/sketch/s1.jpg'',
     ''aligned /w/faces/cartoon/notes.txt'', ''aligned /w/faces/sketch/s2.png'']" by simp
  ultimately show ?thesis using r by (simp add: g n)
qed

text \<open>
  Claim C1 as first stated fails: in \<open>stale_env\<close> the glob yields three paths, two of them
  images, and the method raises \<^verbatim>\<open>KeyError\<close> at the lookup of \<^verbatim>\<open>sketch\<close> instead of
  returning a \<open>Dataset\<close>.
\<close>

theorem from_folder_stale_listing_counterexample:
  "globbed stale_env ''faces'' \<noteq> [] \<and> has_image (globbed stale_env ''faces'') \<and>
   snd (from_folder stale_env ''faces'') = Inl (KeyError ''sketch'')"
  by code_simp

text \<open>
  Claim C2. Whenever \<open>from_folder\<close> returns a \<open>Dataset\<close>, its \<open>label_names\<close> is the sorted
  list of the entries of the data root that are directories, and the label paired with the
  \<open>i\<close>-th globbed path is a position in that list which holds the basename of the path's
  parent directory. A directory listing names each entry once; then it is the only such
  position.
\<close>

theorem from_folder_label_is_position:
  assumes "snd (from_folder e d) = Inr ds"
    and "i < length (globbed e d)"
  shows "label_names ds =
      sort (filter (\<lambda>name. isdir e (join (abspath e d) name)) (listdir e (abspath e d))) \<and>
    sorted (label_names ds) \<and>
    set (label_names ds) =
      {name \<in> set (listdir e (abspath e d)). isdir e (join (abspath e d) name)} \<and>
    length (dataset ds) = length (globbed e d) \<and>
    snd (dataset ds ! i) < length (label_names ds) \<and>
    label_names ds ! snd (dataset ds ! i) = basename (dirname (globbed e d ! i)) \<and>
    (distinct (listdir e (abspath e d)) \<longrightarrow>
       (\<forall>j<length (label_names ds).
          label_names ds ! j = basename (dirname (globbed e d ! i)) \<longrightarrow> j = snd (dataset ds ! i)))"
proof -
  let ?names = "label_names_of e (abspath e d)"
  from from_folder_Inr_D [OF assms(1)] obtain tensors labels where
    ts: "map (align_to_tensor e) (globbed e d) = map Some tensors"
    and ls: "all_image_labels_of (index_by_label_of ?names) (globbed e d) = Inr labels"
    and ds: "ds = \<lparr>dataset = zip tensors labels,
              size_ds = length (globbed e d), label_names = ?names\<rparr>"
    by blast
  from map_Some_nth [OF ts] have lent: "length tensors = length (globbed e d)" by simp
  from labels_in_range [OF ls] assms(2) have
    len: "length labels = length (globbed e d)"
    and rng: "labels ! i < length ?names"
    and nm: "?names ! (labels ! i) = basename (dirname (globbed e d ! i))"
    by simp_all
  from len lent assms(2) have lab: "snd (dataset ds ! i) = labels ! i" by (simp add: ds)
  have uniq: "j = labels ! i"
    if "distinct (listdir e (abspath e d))" "j < length ?names"
      "?names ! j = basename (dirname (globbed e d ! i))" for j
  proof -
    from that(1) have "distinct ?names" by (rule label_names_distinct)
    with that(2,3) rng nm show ?thesis by (metis nth_eq_iff_index_eq)
  qed
  have c1: "label_names ds = ?names" by (simp add: ds)
  have c0: "label_names ds =
      sort (filter (\<lambda>name. isdir e (join (abspath e d) name)) (listdir e (abspath e d)))"
    by (simp add: c1 label_names_of_def)
  have c0a: "sorted (label_names ds)" by (simp add: c1 label_names_sorted)
  have c0b: "set (label_names ds) =
      {name \<in> set (listdir e (abspath e d)). isdir e (join (abspath e d) name)}"
    by (simp only: c1 label_names_set)
  have c2: "length (dataset ds) = length (globbed e d)" using len lent by (simp add: ds)
  have c3: "snd (dataset ds ! i) < length (label_names ds)" using rng by (simp add: lab c1)
  have c4: "label_names ds ! snd (dataset ds ! i) = basename (dirname (globbed e d ! i))"
    using nm by (simp add: lab c1)
  have c5: "distinct (listdir e (abspath e d)) \<longrightarrow>
       (\<forall>j<length (label_names ds).
          label_names ds ! j = basename (dirname (globbed e d ! i)) \<longrightarrow> j = snd (dataset ds ! i))"
    using uniq by (simp add: lab c1)
  from c0 c0a c0b c2 c3 c4 c5 show ?thesis by blast
qed

theorem from_folder_label_is_position_witness:
  "snd (from_folder example_env ''faces'') =
     Inr \<lparr>dataset =
            [(''aligned /w/faces/sketch/s1.jpg'', 1),
             (''aligned /w/faces/cartoon/notes.txt'', 0),
             (''aligned /w/faces/sketch/s2.png'', 1)],
          size_ds = 3, label_names = [''cartoon'', ''sketch'']\<rparr> \<and>
   [''cartoon'', ''sketch''] =
     sort (filter (\<lambda>name. isdir example_env (join (abspath example_env ''faces'') name))
       (listdir example_env (abspath example_env ''faces''))) \<and>
   [''cartoon'', ''sketch''] ! 1 = basename (dirname (globbed example_env ''faces'' ! 2))"
proof -
  have r: "snd (from_folder example_env ''faces'') =
     Inr \<lparr>dataset =
            [(''aligned /w/faces/sketch/s1.jpg'', 1),
             (''aligned /w/faces/cartoon/notes.txt'', 0),
             (''aligned /w/faces/sketch/s2.png'', 1)],
          size_ds = 3, label_names = [''cartoon'', ''sketch'']\<rparr>"
    by code_simp
  have i: "2 < length (globbed example_env ''faces'')" by code_simp
  let ?ds = "\<lparr>dataset =
            [(''aligned /w/faces/sketch/s1.jpg'', 1::nat),
             (''aligned /w/faces/cartoon/notes.txt'', 0),
             (''aligned /w/faces/sketch/s2.png'', 1)],
          size_ds = 3, label_names = [''cartoon'', ''sketch'']\<rparr>"
  from from_folder_label_is_position [OF r i]
  have "label_names ?ds =
      sort (filter (\<lambda>name. isdir example_env (join (abspath example_env ''faces'') name))
        (listdir example_env (abspath example_env ''faces'')))"
    and "label_names ?ds ! snd (dataset ?ds ! 2) = basename (dirname (globbed example_env ''faces'' ! 2))"
    by blast+
  then have "[''cartoon'', ''sketch''] =
      sort (filter (\<lambda>name. isdir example_env (join (abspath example_env ''faces'') name))
        (listdir example_env (abspath example_env ''faces'')))"
    and "[''cartoon'', ''sketch''] ! 1 = basename (dirname (globbed example_env ''faces'' ! 2))"
    by simp_all
  with r show ?thesis by blast
qed

text \<open>
  Claim C3. For a listing that names each entry once, \<open>label_names\<close> is the sorted list of
  the entries of the data root that are directories, \<open>index_by_label\<close> maps the name at
  position \<open>i\<close> to \<open>i\<close>, its keys are exactly the label names, the indices are strictly
  monotone in the order of the names, and \<open>index_by_label\<close> is a bijection from the label
  names onto \<open>{0, ..., len(label_names) - 1}\<close>.
\<close>

theorem label_names_sorted_index_bijection:
  assumes "distinct (listdir e data_root)"
  shows "sorted (label_names_of e data_root) \<and>
    distinct (label_names_of e data_root) \<and>
    set (label_names_of e data_root) =
      {name \<in> set (listdir e data_root). isdir e (join data_root name)} \<and>
    (\<forall>i<length (label_names_of e data_root).
       index_by_label_of (label_names_of e data_root) (label_names_of e data_root ! i) = Some i) \<and>
    dom (index_by_label_of (label_names_of e data_root)) = set (label_names_of e data_root) \<and>
    (\<forall>a b i j.
       index_by_label_of (label_names_of e data_root) a = Some i \<longrightarrow>
       index_by_label_of (label_names_of e data_root) b = Some j \<longrightarrow>
       (a < b \<longleftrightarrow> i < j)) \<and>
    bij_betw (\<lambda>name. the (index_by_label_of (label_names_of e data_root) name))
      (set (label_names_of e data_root)) {0..<length (label_names_of e data_root)}"
proof -
  let ?names = "label_names_of e data_root"
  let ?idx = "index_by_label_of ?names"
  have srt: "sorted ?names" by (rule label_names_sorted)
  have dst: "distinct ?names" using assms by (rule label_names_distinct)
  have nth: "?idx (?names ! i) = Some i" if "i < length ?names" for i
    using dst that by (rule index_by_label_nth)
  have strict: "?names ! i < ?names ! j" if "i < j" "j < length ?names" for i j
  proof -
    from srt that have "?names ! i \<le> ?names ! j" by (simp add: sorted_nth_mono)
    moreover from dst that have "?names ! i \<noteq> ?names ! j" by (simp add: nth_eq_iff_index_eq)
    ultimately show ?thesis by simp
  qed
  have mono: "a < b \<longleftrightarrow> i < j" if a: "?idx a = Some i" and b: "?idx b = Some j" for a b i j
  proof -
    from index_by_label_SomeD [OF a] have i: "i < length ?names" "?names ! i = a" by simp_all
    from index_by_label_SomeD [OF b] have j: "j < length ?names" "?names ! j = b" by simp_all
    show ?thesis
    proof
      assume "a < b"
      show "i < j"
      proof (rule ccontr)
        assume "\<not> i < j"
        then consider "i = j" | "j < i" by linarith
        then show False
        proof cases
          case 1
          with i j \<open>a < b\<close> show False by simp
        next
          case 2
          from strict [OF 2 i(1)] i j \<open>a < b\<close> show False by simp
        qed
      qed
    next
      assume "i < j"
      from strict [OF this j(1)] i j show "a < b" by simp
    qed
  qed
  have bij: "bij_betw (\<lambda>name. the (?idx name)) (set ?names) {0..<length ?names}"
  proof (rule bij_betw_byWitness [where f' = "\<lambda>i. ?names ! i"])
    show "\<forall>x \<in> set ?names. ?names ! the (?idx x) = x"
    proof
      fix x assume "x \<in> set ?names"
      then obtain i where "i < length ?names" "?names ! i = x" by (auto simp: in_set_conv_nth)
      with nth [of i] show "?names ! the (?idx x) = x" by auto
    qed
    show "\<forall>y \<in> {0..<length ?names}. the (?idx (?names ! y)) = y"
      using nth by simp
    show "(\<lambda>name. the (?idx name)) ` set ?names \<subseteq> {0..<length ?names}"
    proof
      fix y assume "y \<in> (\<lambda>name. the (?idx name)) ` set ?names"
      then obtain i where "i < length ?names" "y = the (?idx (?names ! i))"
        by (auto simp: in_set_conv_nth)
      with nth [of i] show "y \<in> {0..<length ?names}" by simp
    qed
    show "(\<lambda>i. ?names ! i) ` {0..<length ?names} \<subseteq> set ?names" by auto
  qed
  from srt dst nth mono bij show ?thesis
    by (simp add: label_names_set dom_index_by_label)
qed

theorem label_names_sorted_index_bijection_witness:
  "label_names_of example_env ''/w/faces'' = [''cartoon'', ''sketch''] \<and>
   index_by_label_of (label_names_of example_env ''/w/faces'') ''cartoon'' = Some 0 \<and>
   index_by_label_of (label_names_of example_env ''/w/faces'') ''sketch'' = Some 1 \<and>
   dom (index_by_label_of (label_names_of example_env ''/w/faces'')) = {''cartoon'', ''sketch''} \<and>
   bij_betw (\<lambda>name. the (index_by_label_of (label_names_of example_env ''/w/faces'') name))
     {''cartoon'', ''sketch''} {0..<2}"
proof -
  have h: "distinct (listdir example_env ''/w/faces'')" by code_simp
  have n: "label_names_of example_env ''/w/faces'' = [''cartoon'', ''sketch'']" by code_simp
  from label_names_sorted_index_bijection [OF h]
  have nth: "\<forall>i<length (label_names_of example_env ''/w/faces'').
       index_by_label_of (label_names_of example_env ''/w/faces'')
         (label_names_of example_env ''/w/faces'' ! i) = Some i"
    and dm: "dom (index_by_label_of (label_names_of example_env ''/w/faces'')) =
       set (label_names_of example_env ''/w/faces'')"
    and bij: "bij_betw (\<lambda>name. the (index_by_label_of (label_names_of example_env ''/w/faces'') name))
      (set (label_names_of example_env ''/w/faces''))
      {0..<length (label_names_of example_env ''/w/faces'')}"
    by blast+
  from nth [rule_format, of 0] nth [rule_format, of 1] dm bij n show ?thesis
    by (simp add: insert_commute numeral_2_eq_2)
qed

text \<open>
  Claim C4, as amended. For every sequence of paths for each of which the aligner returns
  an image, \<^verbatim>\<open>_preprocess_face_dataset\<close> hands the paths to the aligner one after the other
  in input order and returns one tensor per path: the output is as long as the input and
  its \<open>i\<close>-th element is the aligned tensor of the \<open>i\<close>-th path.
\<close>

theorem preprocess_face_dataset_one_per_aligned_path:
  assumes "\<forall>path \<in> set paths. align_to_tensor e path \<noteq> None"
  shows "\<exists>tensors.
      preprocess_face_dataset e paths = (paths, Inr tensors) \<and>
      length tensors = length paths \<and>
      (\<forall>i<length paths. align_to_tensor e (paths ! i) = Some (tensors ! i))"
proof -
  let ?tensors = "map (\<lambda>path. the (align_to_tensor e path)) paths"
  have "preprocess_face_dataset e paths = (paths, Inr ?tensors)"
    using assms by (rule preprocess_face_dataset_all)
  moreover have "length ?tensors = length paths" by simp
  moreover have "\<forall>i<length paths. align_to_tensor e (paths ! i) = Some (?tensors ! i)"
    using assms by auto
  ultimately show ?thesis by blast
qed

theorem preprocess_face_dataset_one_per_aligned_path_witness:
  "preprocess_face_dataset example_env [''/w/faces/sketch/s1.jpg'', ''/w/faces/cartoon/notes.txt'']
     = ([''/w/faces/sketch/s1.jpg'', ''/w/faces/cartoon/notes.txt''],
        Inr [''aligned /w/faces/sketch/s1.jpg'', ''aligned /w/faces/cartoon/notes.txt''])"
proof -
  let ?ps = "[''/w/faces/sketch/s1.jpg'', ''/w/faces/cartoon/notes.txt'']"
  have a: "align_to_tensor example_env = (\<lambda>p. Some (''aligned '' @ p))"
    by (simp add: example_env_def)
  have h: "\<forall>path \<in> set ?ps. align_to_tensor example_env path \<noteq> None"
    by (simp add: a)
  from preprocess_face_dataset_one_per_aligned_path [OF h] obtain tensors where
    r: "preprocess_face_dataset example_env ?ps = (?ps, Inr tensors)"
    and l: "length tensors = length ?ps"
    and i: "\<forall>i<length ?ps. align_to_tensor example_env (?ps ! i) = Some (tensors ! i)"
    by blast
  from i [rule_format, of 0] i [rule_format, of 1]
  have t: "tensors ! 0 = ''aligned /w/faces/sketch/s1.jpg''"
    "tensors ! 1 = ''aligned /w/faces/cartoon/notes.txt''"
    by (simp_all add: a)
  from l obtain x y where "tensors = [x, y]"
    by (auto simp: length_Suc_conv numeral_2_eq_2)
  with t have "tensors = [''aligned /w/faces/sketch/s1.jpg'', ''aligned /w/faces/cartoon/notes.txt'']"
    by simp
  with r show ?thesis by simp
qed

text \<open>
  Claim C4 as first stated, for every sequence of paths, fails: in \<open>faceless_env\<close> the
  aligner returns \<^verbatim>\<open>None\<close> for the second of three paths, the function raises
  \<^verbatim>\<open>AttributeError\<close> there, returns no tensor and never reads the third path.
\<close>

theorem preprocess_face_dataset_faceless_counterexample:
  "preprocess_face_dataset faceless_env
     [''/w/faces/sketch/s1.jpg'', ''/w/faces/cartoon/notes.txt'', ''/w/faces/sketch/s2.png'']
   = ([''/w/faces/sketch/s1.jpg'', ''/w/faces/cartoon/notes.txt''],
      Inl (AttributeError ''NoneType object has no attribute numpy_view''))"
  by code_simp

text \<open>
  Claim C5. \<open>from_folder\<close> raises \<^verbatim>\<open>ValueError\<close> exactly when the glob yields no path, or
  yields some path but none that ends in \<^verbatim>\<open>.jpg\<close>, \<^verbatim>\<open>.jpeg\<close> or \<^verbatim>\<open>.png\<close>; in both
  cases no path has been handed to the aligner and no \<open>Dataset\<close> is returned.
\<close>

theorem from_folder_ValueError_iff:
  "((\<exists>msg. snd (from_folder e d) = Inl (ValueError msg)) \<longleftrightarrow>
      (globbed e d = [] \<or> (globbed e d \<noteq> [] \<and> \<not> has_image (globbed e d)))) \<and>
   (globbed e d = [] \<or> \<not> has_image (globbed e d) \<longrightarrow>
      fst (from_folder e d) = [] \<and> (\<forall>ds. snd (from_folder e d) \<noteq> Inr ds))"
proof (cases "has_image (globbed e d)")
  case True
  then have ne: "globbed e d \<noteq> []" by auto
  have "snd (from_folder e d) \<noteq> Inl (ValueError msg)" for msg
  proof
    assume "snd (from_folder e d) = Inl (ValueError msg)"
    from from_folder_Inl_D [OF True this]
    have "all_image_labels_of (index_by_label_of (label_names_of e (abspath e d))) (globbed e d)
       = Inl (ValueError msg)"
      by simp
    with all_image_labels_Inl show False by blast
  qed
  with True ne show ?thesis by simp
next
  case False
  show ?thesis
  proof (cases "globbed e d = []")
    case True
    then show ?thesis by (simp add: from_folder_empty)
  next
    case nonempty: False
    with False show ?thesis by (simp add: from_folder_no_image)
  qed
qed

theorem from_folder_ValueError_iff_witness:
  "globbed no_image_env ''faces'' = [''/w/faces/cartoon/notes.txt''] \<and>
   (\<exists>msg. snd (from_folder no_image_env ''faces'') = Inl (ValueError msg)) \<and>
   fst (from_folder no_image_env ''faces'') = [] \<and>
   globbed no_image_env ''elsewhere'' = [] \<and>
   (\<exists>msg. snd (from_folder no_image_env ''elsewhere'') = Inl (ValueError msg)) \<and>
   fst (from_folder no_image_env ''elsewhere'') = []"
proof -
  have g1: "globbed no_image_env ''faces'' = [''/w/faces/cartoon/notes.txt'']" by code_simp
  have n1: "\<not> has_image (globbed no_image_env ''faces'')" by code_simp
  have g2: "globbed no_image_env ''elsewhere'' = []" by code_simp
  from from_folder_ValueError_iff [of no_image_env "''faces''"] n1
  have r1: "(\<exists>msg. snd (from_folder no_image_env ''faces'') = Inl (ValueError msg)) \<and>
    fst (from_folder no_image_env ''faces'') = []"
    by (simp add: g1)
  from from_folder_ValueError_iff [of no_image_env "''elsewhere''"] g2
  have r2: "(\<exists>msg. snd (from_folder no_image_env ''elsewhere'') = Inl (ValueError msg)) \<and>
    fst (from_folder no_image_env ''elsewhere'') = []"
    by simp
  from g1 g2 r1 r2 show ?thesis by simp
qed

text \<open>
  Claim C6, as amended. Whenever some globbed path has a supported suffix, the globbed
  paths are handed to the aligner in glob order, whatever their suffix, up to and including
  the first path for which the aligner returns no image; when the aligner returns an image
  for every globbed path, every globbed path is handed over. A returned \<open>Dataset\<close> means
  that every globbed path was handed over; it counts all of them in \<open>size\<close> and holds one
  aligned tensor for each.
\<close>

theorem from_folder_no_per_file_filter:
  assumes "has_image (globbed e d)"
  shows "fst (from_folder e d) =
      takeWhile (\<lambda>path. align_to_tensor e path \<noteq> None) (globbed e d) @
      take 1 (dropWhile (\<lambda>path. align_to_tensor e path \<noteq> None) (globbed e d)) \<and>
    ((\<forall>path \<in> set (globbed e d). align_to_tensor e path \<noteq> None) \<longrightarrow>
       fst (from_folder e d) = globbed e d) \<and>
    (\<forall>ds. snd (from_folder e d) = Inr ds \<longrightarrow>
       fst (from_folder e d) = globbed e d \<and>
       size_ds ds = length (globbed e d) \<and>
       length (dataset ds) = length (globbed e d) \<and>
       map (\<lambda>pair. Some (fst pair)) (dataset ds) = map (align_to_tensor e) (globbed e d))"
proof -
  have calls: "fst (from_folder e d) =
      takeWhile (\<lambda>path. align_to_tensor e path \<noteq> None) (globbed e d) @
      take 1 (dropWhile (\<lambda>path. align_to_tensor e path \<noteq> None) (globbed e d))"
    by (simp add: from_folder_calls [OF assms] preprocess_face_dataset_def preprocess_loop_calls)
  have all: "fst (from_folder e d) = globbed e d"
    if "\<forall>path \<in> set (globbed e d). align_to_tensor e path \<noteq> None"
    by (simp add: from_folder_calls [OF assms] preprocess_face_dataset_all [OF that])
  have ret: "fst (from_folder e d) = globbed e d \<and>
       size_ds ds = length (globbed e d) \<and>
       length (dataset ds) = length (globbed e d) \<and>
       map (\<lambda>pair. Some (fst pair)) (dataset ds) = map (align_to_tensor e) (globbed e d)"
    if "snd (from_folder e d) = Inr ds" for ds
  proof -
    from from_folder_Inr_D [OF that] obtain tensors labels where
      c: "fst (from_folder e d) = globbed e d"
      and ts: "map (align_to_tensor e) (globbed e d) = map Some tensors"
      and ls: "all_image_labels_of (index_by_label_of (label_names_of e (abspath e d))) (globbed e d)
         = Inr labels"
      and ds: "ds = \<lparr>dataset = zip tensors labels,
              size_ds = length (globbed e d),
              label_names = label_names_of e (abspath e d)\<rparr>"
      by blast
    from labels_in_range [OF ls] have l1: "length labels = length (globbed e d)" by simp
    from map_Some_nth [OF ts] have l2: "length tensors = length (globbed e d)" by simp
    from l1 l2 have "map fst (zip tensors labels) = tensors" by simp
    then have "map (\<lambda>pair. Some (fst pair)) (dataset ds) = map Some tensors"
      by (simp add: ds flip: map_map [of Some fst, unfolded comp_def])
    with c l1 l2 ts show ?thesis by (simp add: ds)
  qed
  from calls all ret show ?thesis by blast
qed

theorem from_folder_no_per_file_filter_witness:
  "\<not> endswith_any ''/w/faces/cartoon/notes.txt'' image_suffixes \<and>
   fst (from_folder example_env ''faces'') =
     [''/w/faces/sketch/s1.jpg'', ''/w/faces/cartoon/notes.txt'', ''/w/faces/sketch/s2.png''] \<and>
   size_ds (projr (snd (from_folder example_env ''faces''))) = 3"
proof -
  have h: "has_image (globbed example_env ''faces'')" by code_simp
  have g: "globbed example_env ''faces'' =
    [''/w/faces/sketch/s1.jpg'', ''/w/faces/cartoon/notes.txt'', ''/w/faces/sketch/s2.png'']"
    by code_simp
  have t: "\<not> endswith_any ''/w/faces/cartoon/notes.txt'' image_suffixes" by code_simp
  have a: "\<forall>path \<in> set (globbed example_env ''faces''). align_to_tensor example_env path \<noteq> None"
    by (simp add: example_env_def)
  have r: "snd (from_folder example_env ''faces'') = Inr (projr (snd (from_folder example_env ''faces'')))"
    by code_simp
  from from_folder_no_per_file_filter [OF h] a r
  have "fst (from_folder example_env ''faces'') = globbed example_env ''faces''"
    and "size_ds (projr (snd (from_folder example_env ''faces''))) = length (globbed example_env ''faces'')"
    by blast+
  with t show ?thesis by (simp add: g)
qed

text \<open>
  Claim C6 as first stated fails: in \<open>faceless_env\<close> a globbed path has a supported suffix,
  yet the third globbed path never reaches the aligner, because the aligner returns
  \<^verbatim>\<open>None\<close> for the second (which has no supported suffix and was handed over all the same).
\<close>

theorem from_folder_faceless_counterexample:
  "has_image (globbed faceless_env ''faces'') \<and>
   globbed faceless_env ''faces'' =
     [''/w/faces/sketch/s1.jpg'', ''/w/faces/cartoon/notes.txt'', ''/w/faces/sketch/s2.png''] \<and>
   fst (from_folder faceless_env ''faces'') =
     [''/w/faces/sketch/s1.jpg'', ''/w/faces/cartoon/notes.txt'']"
  by code_simp

text \<open>
  Claim C7, as amended. When the file system is unchanged between the glob and the listing
  (\<open>glob_still_present\<close>) and every globbed path lies exactly two levels below the data
  root (\<open>glob_below_root\<close>), the basename of the parent directory of every globbed path is a
  key of \<open>index_by_label\<close>, so \<open>from_folder\<close> never raises \<^verbatim>\<open>KeyError\<close>, and every label of
  a returned \<open>Dataset\<close> is below \<open>len(label_names)\<close>.
\<close>

theorem from_folder_lookup_never_fails:
  assumes "glob_still_present e (abspath e d)"
    and "glob_below_root e (abspath e d)"
  shows "(\<forall>path \<in> set (globbed e d).
        basename (dirname path) \<in> dom (index_by_label_of (label_names_of e (abspath e d)))) \<and>
    (\<forall>key. snd (from_folder e d) \<noteq> Inl (KeyError key)) \<and>
    (\<forall>ds. snd (from_folder e d) = Inr ds \<longrightarrow>
       (\<forall>pair \<in> set (dataset ds). snd pair < length (label_names ds)))"
proof -
  let ?idx = "index_by_label_of (label_names_of e (abspath e d))"
  have keys: "\<forall>path \<in> set (globbed e d). basename (dirname path) \<in> dom ?idx"
    using still_present_parent [OF assms] by (simp add: dom_index_by_label)
  then obtain labels where ls: "all_image_labels_of ?idx (globbed e d) = Inr labels"
    using all_image_labels_total by blast
  have nokey: "snd (from_folder e d) \<noteq> Inl (KeyError key)" for key
  proof (cases "has_image (globbed e d)")
    case True
    show ?thesis
    proof
      assume "snd (from_folder e d) = Inl (KeyError key)"
      from from_folder_Inl_D [OF True this] ls show False by simp
    qed
  next
    case False
    show ?thesis
    proof (cases "globbed e d = []")
      case True
      then show ?thesis by (simp add: from_folder_empty)
    next
      case nonempty: False
      with False show ?thesis by (simp add: from_folder_no_image)
    qed
  qed
  have range: "snd pair < length (label_names ds)"
    if r: "snd (from_folder e d) = Inr ds" and p: "pair \<in> set (dataset ds)" for ds pair
  proof -
    from from_folder_Inr_D [OF r] ls obtain tensors where
      ds: "ds = \<lparr>dataset = zip tensors labels,
              size_ds = length (globbed e d),
              label_names = label_names_of e (abspath e d)\<rparr>"
      by auto
    from p have "(fst pair, snd pair) \<in> set (zip tensors labels)"
      by (simp add: ds)
    then have "snd pair \<in> set labels" by (rule set_zip_rightD)
    then obtain i where i: "i < length labels" "labels ! i = snd pair"
      by (auto simp: in_set_conv_nth)
    with labels_in_range [OF ls] show ?thesis by (auto simp: ds)
  qed
  from keys nokey range show ?thesis by blast
qed

theorem from_folder_lookup_never_fails_witness:
  "glob_still_present example_env (abspath example_env ''faces'') \<and>
   glob_below_root example_env (abspath example_env ''faces'') \<and>
   snd (from_folder example_env ''faces'') \<noteq> Inl (KeyError ''sketch'') \<and>
   basename (dirname ''/w/faces/sketch/s2.png'')
     \<in> dom (index_by_label_of (label_names_of example_env (abspath example_env ''faces'')))"
proof -
  have h1: "glob_still_present example_env (abspath example_env ''faces'')" by code_simp
  have h2: "glob_below_root example_env (abspath example_env ''faces'')" by code_simp
  have g: "''/w/faces/sketch/s2.png'' \<in> set (globbed example_env ''faces'')" by code_simp
  from from_folder_lookup_never_fails [OF h1 h2] g h1 h2 show ?thesis by blast
qed

text \<open>
  Claim C7 as first stated, with the unchanged file system as its only precondition, fails:
  in \<open>bracket_env\<close> every globbed path is still present when the listing runs, but the
  paths lie below \<^verbatim>\<open>/w/d1\<close> and the listing reads \<^verbatim>\<open>/w/d[1]\<close>, so the lookup of
  \<^verbatim>\<open>sketch\<close> raises \<^verbatim>\<open>KeyError\<close>.
\<close>

theorem from_folder_bracket_root_counterexample:
  "glob_still_present bracket_env (abspath bracket_env ''d[1]'') \<and>
   globbed bracket_env ''d[1]'' = [''/w/d1/sketch/s1.jpg''] \<and>
   label_names_of bracket_env (abspath bracket_env ''d[1]'') = [''cartoon''] \<and>
   snd (from_folder bracket_env ''d[1]'') = Inl (KeyError ''sketch'')"
  by code_simp

text \<open>
  Claim C8. Two runs in which the glob returns the same path sequence, the listings (each
  naming an entry once) report the same set of subdirectory names, and every globbed path
  aligns to the same tensor, have the same outcome: the same \<open>Dataset\<close> (label names, size
  and pairs), or the same exception.
\<close>

theorem from_folder_deterministic:
  assumes "globbed e1 d1 = globbed e2 d2"
    and "distinct (listdir e1 (abspath e1 d1))"
    and "distinct (listdir e2 (abspath e2 d2))"
    and "set (filter (\<lambda>name. isdir e1 (join (abspath e1 d1) name)) (listdir e1 (abspath e1 d1))) =
         set (filter (\<lambda>name. isdir e2 (join (abspath e2 d2) name)) (listdir e2 (abspath e2 d2)))"
    and "\<forall>path \<in> set (globbed e1 d1). align_to_tensor e1 path = align_to_tensor e2 path"
  shows "from_folder e1 d1 = from_folder e2 d2"
proof -
  have "set (label_names_of e1 (abspath e1 d1)) = set (label_names_of e2 (abspath e2 d2))"
    using assms(4) by (simp add: label_names_of_def)
  moreover have "distinct (label_names_of e1 (abspath e1 d1))"
    "distinct (label_names_of e2 (abspath e2 d2))"
    using assms(2,3) by (simp_all add: label_names_distinct)
  ultimately have names: "label_names_of e1 (abspath e1 d1) = label_names_of e2 (abspath e2 d2)"
    using label_names_sorted sorted_distinct_set_unique by blast
  have imgs: "preprocess_face_dataset e1 (globbed e2 d2) = preprocess_face_dataset e2 (globbed e2 d2)"
    using assms(1,5) by (simp add: preprocess_face_dataset_def preprocess_loop_cong)
  show ?thesis
  proof (cases "has_image (globbed e1 d1)")
    case True
    with assms(1) have True2: "has_image (globbed e2 d2)" by simp
    show ?thesis
      unfolding from_folder_checked [OF True] from_folder_checked [OF True2]
      by (simp add: assms(1) names imgs split: sum.splits prod.splits)
  next
    case False
    with assms(1) have False2: "\<not> has_image (globbed e2 d2)" by simp
    show ?thesis
    proof (cases "globbed e1 d1 = []")
      case True
      with assms(1) show ?thesis by (simp add: from_folder_empty)
    next
      case nonempty: False
      with assms(1) False False2 show ?thesis by (simp add: from_folder_no_image)
    qed
  qed
qed

theorem from_folder_deterministic_witness:
  "listdir example_env (abspath example_env ''faces'') \<noteq>
     listdir reordered_env (abspath reordered_env ''faces'') \<and>
   from_folder example_env ''faces'' = from_folder reordered_env ''faces''"
proof -
  have h1: "globbed example_env ''faces'' = globbed reordered_env ''faces''" by code_simp
  have h2: "distinct (listdir example_env (abspath example_env ''faces''))" by code_simp
  have h3: "distinct (listdir reordered_env (abspath reordered_env ''faces''))" by code_simp
  have h4: "set (filter (\<lambda>name. isdir example_env (join (abspath example_env ''faces'') name))
              (listdir example_env (abspath example_env ''faces''))) =
         set (filter (\<lambda>name. isdir reordered_env (join (abspath reordered_env ''faces'') name))
              (listdir reordered_env (abspath reordered_env ''faces'')))"
    by code_simp
  have h5: "\<forall>path \<in> set (globbed example_env ''faces'').
      align_to_tensor example_env path = align_to_tensor reordered_env path"
    by (simp add: example_env_def reordered_env_def)
  have ne: "listdir example_env (abspath example_env ''faces'') \<noteq>
     listdir reordered_env (abspath reordered_env ''faces'')"
    by code_simp
  from from_folder_deterministic [OF h1 h2 h3 h4 h5] ne show ?thesis by simp
qed

end
